theory Spec2Isabelle
  imports Complex_Main "HOL-Library.AList" "HOL-Library.Word"
begin

section \<open>JavaScript strings\<close>

text \<open>
  A JavaScript string is a sequence of UTF-16 code units. A literal of the source is
  written \<open>utf16_of ''...''\<close>; all literals of the source are ASCII.
\<close>

type_synonym js_string = "16 word list"

definition utf16_of :: "string \<Rightarrow> js_string" where
  "utf16_of s = map of_char s"

text \<open>
  The code units that \<^verbatim>\<open>String.prototype.trim\<close> strips and that \<^verbatim>\<open>\s\<close> matches in a
  regular expression: the white space and line terminator code points of ECMAScript
  (TAB, LF, VT, FF, CR, SP, NBSP, U+1680, U+2000 to U+200A, U+2028, U+2029, U+202F,
  U+205F, U+3000, U+FEFF).
\<close>

definition is_space :: "16 word \<Rightarrow> bool" where
  "is_space c \<longleftrightarrow>
     c \<in> {0x09, 0x0A, 0x0B, 0x0C, 0x0D, 0x20, 0xA0, 0x1680, 0x2028, 0x2029, 0x202F,
          0x205F, 0x3000, 0xFEFF}
     \<or> (0x2000 \<le> c \<and> c \<le> 0x200A)"

definition is_digit :: "16 word \<Rightarrow> bool" where
  "is_digit c \<longleftrightarrow> 0x30 \<le> c \<and> c \<le> 0x39"

definition trim :: "js_string \<Rightarrow> js_string" where
  "trim s = rev (dropWhile is_space (rev (dropWhile is_space s)))"

text \<open>
  \<^verbatim>\<open>s.split(sep)\<close> for a separator of one code unit. The result is never the empty
  array (\<^verbatim>\<open>"".split(",")\<close> is \<^verbatim>\<open>[""]\<close>), so the last case of the second equation is
  never taken.
\<close>

fun split_on :: "16 word \<Rightarrow> js_string \<Rightarrow> js_string list" where
  "split_on sep [] = [[]]"
| "split_on sep (c # cs) =
     (if c = sep then [] # split_on sep cs
      else (case split_on sep cs of
              x # xs \<Rightarrow> (c # x) # xs
            | [] \<Rightarrow> [[c]]))"

text \<open>
  A value that may be \<^verbatim>\<open>null\<close> or \<^verbatim>\<open>undefined\<close> is an option. \<^verbatim>\<open>if (v)\<close> on a string
  or \<^verbatim>\<open>null\<close> holds when the string is present and not empty; \<^verbatim>\<open>v ?? d\<close> replaces
  only a missing value, \<^verbatim>\<open>v || d\<close> a missing or empty one.
\<close>

definition truthy :: "js_string option \<Rightarrow> bool" where
  "truthy v = (case v of None \<Rightarrow> False | Some s \<Rightarrow> s \<noteq> [])"

definition nullish_or :: "js_string option \<Rightarrow> js_string \<Rightarrow> js_string" where
  "nullish_or v d = (case v of None \<Rightarrow> d | Some s \<Rightarrow> s)"

definition falsy_or :: "js_string option \<Rightarrow> js_string \<Rightarrow> js_string" where
  "falsy_or v d = (case v of None \<Rightarrow> d | Some s \<Rightarrow> if s = [] then d else s)"

section \<open>The fixed-window rate limiter of the scoring endpoint\<close>

text \<open>
  The route handler keeps one process-wide \<^verbatim>\<open>Map<string, {count, resetTime}>\<close>.
  A JavaScript \<^verbatim>\<open>Map\<close> is an insertion-ordered table with unique keys, so it is
  modelled as an association list: \<^verbatim>\<open>get\<close> is \<^const>\<open>map_of\<close>, \<^verbatim>\<open>set\<close> is
  \<^const>\<open>AList.update\<close> (an existing key keeps its position, a new key is appended) and
  \<^verbatim>\<open>delete\<close> is \<^const>\<open>AList.delete\<close>. Keys of a \<^verbatim>\<open>Map\<close> are unique, which is the
  predicate \<open>wf_store\<close> below. \<^verbatim>\<open>Date.now()\<close> is an integer number of milliseconds and
  is passed to every operation as the argument \<open>now\<close>. Counters and timestamps are
  integers far below \<open>2 ^ 53\<close>, where JavaScript numbers are exact, so they are \<^typ>\<open>int\<close>.
\<close>

definition RATE_LIMIT :: int where
  "RATE_LIMIT = 10"

definition RATE_LIMIT_WINDOW :: int where
  "RATE_LIMIT_WINDOW = 1000"

text \<open>
  The value returned by \<^verbatim>\<open>checkRateLimit\<close>: its type declares \<^verbatim>\<open>resetTime\<close> and
  \<^verbatim>\<open>remaining\<close> optional, and every return statement sets both.
\<close>

record rate_limit_result =
  allowed :: bool
  resetTime :: "int option"
  remaining :: "int option"

text \<open>The value stored per key.\<close>

record entry =
  count :: int
  resetTime :: int

type_synonym rateLimitStore = "(js_string \<times> entry) list"

definition wf_store :: "rateLimitStore \<Rightarrow> bool" where
  "wf_store st = distinct (map fst st)"

text \<open>
  \<^verbatim>\<open>checkRateLimit(key)\<close>, returning the result and the store after the call. In the
  last branch the source increments the stored object in place and sets it again under
  the same key; the object is referenced from this one key only.
\<close>

definition checkRateLimit ::
    "js_string \<Rightarrow> int \<Rightarrow> rateLimitStore \<Rightarrow> rate_limit_result \<times> rateLimitStore" where
  "checkRateLimit key now st =
     (let windowEnd = now + RATE_LIMIT_WINDOW
      in case map_of st key of
           None \<Rightarrow>
             (\<lparr>allowed = True, rate_limit_result.resetTime = Some windowEnd,
               remaining = Some (RATE_LIMIT - 1)\<rparr>,
              AList.update key \<lparr>count = 1, resetTime = windowEnd\<rparr> st)
         | Some current \<Rightarrow>
             if now > resetTime current then
               (\<lparr>allowed = True, rate_limit_result.resetTime = Some windowEnd,
                 remaining = Some (RATE_LIMIT - 1)\<rparr>,
                AList.update key \<lparr>count = 1, resetTime = windowEnd\<rparr> st)
             else if count current \<ge> RATE_LIMIT then
               (\<lparr>allowed = False, rate_limit_result.resetTime = Some (resetTime current),
                 remaining = Some 0\<rparr>,
                st)
             else
               (let current' = current\<lparr>count := count current + 1\<rparr>
                in (\<lparr>allowed = True, rate_limit_result.resetTime = Some (resetTime current'),
                     remaining = Some (RATE_LIMIT - count current')\<rparr>,
                    AList.update key current' st)))"

text \<open>
  The periodic clean-up: the \<^verbatim>\<open>for ... of rateLimitStore.entries()\<close> loop visits the
  entries in order and deletes the visited key when its window has passed. Deleting the
  entry being visited does not disturb the iteration, so the loop runs over the entries
  present when it starts.
\<close>

fun sweep_loop :: "int \<Rightarrow> (js_string \<times> entry) list \<Rightarrow> rateLimitStore \<Rightarrow> rateLimitStore" where
  "sweep_loop now [] st = st"
| "sweep_loop now ((key, val) # rest) st =
     sweep_loop now rest (if now > resetTime val then AList.delete key st else st)"

definition sweep :: "int \<Rightarrow> rateLimitStore \<Rightarrow> rateLimitStore" where
  "sweep now st = sweep_loop now st st"

text \<open>
  A sequence of calls, each with its key and the clock value it reads; the results are
  returned in call order together with the final store.
\<close>

fun run_calls :: "(js_string \<times> int) list \<Rightarrow> rateLimitStore \<Rightarrow> rate_limit_result list \<times> rateLimitStore" where
  "run_calls [] st = ([], st)"
| "run_calls ((key, now) # cs) st =
     (let (r, st') = checkRateLimit key now st;
          (rs, st'') = run_calls cs st'
      in (r # rs, st''))"

text \<open>The results that the calls of one identity receive within a sequence of calls.\<close>

definition results_for :: "js_string \<Rightarrow> (js_string \<times> int) list \<Rightarrow> rateLimitStore \<Rightarrow> rate_limit_result list" where
  "results_for key cs st =
     map snd (filter (\<lambda>(c, r). fst c = key) (zip cs (fst (run_calls cs st))))"

section \<open>Client identity resolution\<close>

text \<open>
  \<^verbatim>\<open>request.headers.get(name)\<close> returns the value of a header or \<^verbatim>\<open>null\<close>; the header
  set is the function from the (lower-case) header name to that value.
\<close>

type_synonym headers = "string \<Rightarrow> js_string option"

text \<open>
  \<^verbatim>\<open>forwarded.split(",")[0].trim()\<close>: element 0 of the split always exists
  (lemma \<open>split_on_not_Nil\<close> below). In \<open>getRateLimitKey\<close> a value is taken out of
  its option only under the test that it is present and not empty.
\<close>

definition first_forwarded :: "js_string \<Rightarrow> js_string" where
  "first_forwarded forwarded = trim (hd (split_on 0x2C forwarded))"

definition getRateLimitKey :: "headers \<Rightarrow> js_string" where
  "getRateLimitKey hs =
     (let forwarded = hs ''x-forwarded-for'';
          realIp = hs ''x-real-ip'';
          cfConnectingIp = hs ''cf-connecting-ip'';
          xClientIp = hs ''x-client-ip''
      in if truthy cfConnectingIp then the cfConnectingIp
         else if truthy forwarded then first_forwarded (the forwarded)
         else if truthy realIp then the realIp
         else if truthy xClientIp then the xClientIp
         else utf16_of ''unknown-client'')"

text \<open>
  The policy in the words of the specification, for comparison with the code: the
  headers in priority order, each with what is returned from its value; the first
  header whose value is present and not empty decides, and the sentinel is returned
  when there is none.
\<close>

definition header_priority :: "(string \<times> (js_string \<Rightarrow> js_string)) list" where
  "header_priority =
     [(''cf-connecting-ip'', \<lambda>v. v),
      (''x-forwarded-for'', \<lambda>v. trim (takeWhile (\<lambda>c. c \<noteq> 0x2C) v)),
      (''x-real-ip'', \<lambda>v. v),
      (''x-client-ip'', \<lambda>v. v)]"

fun first_present :: "headers \<Rightarrow> (string \<times> (js_string \<Rightarrow> js_string)) list \<Rightarrow> js_string option" where
  "first_present hs [] = None"
| "first_present hs ((name, f) # rest) =
     (case hs name of
        None \<Rightarrow> first_present hs rest
      | Some v \<Rightarrow> if v = [] then first_present hs rest else Some (f v))"

definition spec_identity :: "headers \<Rightarrow> js_string" where
  "spec_identity hs =
     (case first_present hs header_priority of
        None \<Rightarrow> utf16_of ''unknown-client''
      | Some v \<Rightarrow> v)"

section \<open>Feedback lists of the scoring response\<close>

text \<open>
  \<^verbatim>\<open>line.match(/^\d+\.?\s/)\<close> is not \<^verbatim>\<open>null\<close>: the line starts with one or more
  digits, then an optional full stop, then a white space code unit. Digits, the full
  stop and white space are disjoint, so the greedy match of the digits decides.
\<close>

definition matches_numbering :: "js_string \<Rightarrow> bool" where
  "matches_numbering line =
     (takeWhile is_digit line \<noteq> [] \<and>
      (case dropWhile is_digit line of
         [] \<Rightarrow> False
       | c # r \<Rightarrow>
           is_space c \<or>
           (c = 0x2E \<and> (case r of [] \<Rightarrow> False | d # _ \<Rightarrow> is_space d))))"

definition parseTextToArray :: "js_string \<Rightarrow> js_string list" where
  "parseTextToArray text =
     take 3
       (filter (\<lambda>line. length line > 0 \<and> \<not> matches_numbering line)
          (map trim (split_on 0x0A text)))"

record feedback =
  strengths :: "js_string list"
  improvements :: "js_string list"
  recommendations :: "js_string list"
  overallFeedback :: js_string

text \<open>
  The \<^verbatim>\<open>feedback\<close> object of a response with status 200, from the \<^verbatim>\<open>text\<close> of the
  four upstream responses (each may be \<^verbatim>\<open>undefined\<close>): the object is built, then each
  empty list is replaced.
\<close>

definition POST_feedback ::
    "js_string option \<Rightarrow> js_string option \<Rightarrow> js_string option \<Rightarrow> js_string option \<Rightarrow> feedback" where
  "POST_feedback strengthsText improvementsText recommendationsText overallText =
     (let fb0 = \<lparr>strengths = parseTextToArray (nullish_or strengthsText []),
                 improvements = parseTextToArray (nullish_or improvementsText []),
                 recommendations = parseTextToArray (nullish_or recommendationsText []),
                 overallFeedback =
                   falsy_or (Some (trim (nullish_or overallText [])))
                     (utf16_of ''Your project has been analyzed across six key criteria. Review the individual scores to identify areas for improvement.'')\<rparr>;
          fb1 = (if length (strengths fb0) = 0
                 then fb0\<lparr>strengths := [utf16_of ''Project shows potential in multiple areas'']\<rparr>
                 else fb0);
          fb2 = (if length (improvements fb1) = 0
                 then fb1\<lparr>improvements := [utf16_of ''Consider refining areas with lower scores'']\<rparr>
                 else fb1);
          fb3 = (if length (recommendations fb2) = 0
                 then fb2\<lparr>recommendations := [utf16_of ''Focus on strengthening core value proposition'']\<rparr>
                 else fb2)
      in fb3)"

section \<open>History of analyses in browser-local storage\<close>

text \<open>
  Values as \<^verbatim>\<open>JSON.parse\<close> returns them. The TypeScript interfaces are erased at run
  time, so an analysis is such a value too.
\<close>

datatype json =
    JNull
  | JBool bool
  | JNum real
  | JStr js_string
  | JArr "json list"
  | JObj "(js_string \<times> json) list"

text \<open>
  \<^verbatim>\<open>localStorage\<close> maps keys to strings; \<^verbatim>\<open>getItem\<close> returns \<^verbatim>\<open>null\<close> for a missing
  key.
\<close>

type_synonym localStorage = "js_string \<rightharpoonup> js_string"

text \<open>
  \<^verbatim>\<open>localStorage.setItem(key, value)\<close> throws a \<^verbatim>\<open>QuotaExceededError\<close> when the user
  agent does not accept the write (the storage quota of the origin is used up, or
  storage is disabled), and leaves the storage as it was. Whether a write is accepted
  is the user agent's decision; it is the argument \<open>accepts\<close>. The result is \<open>None\<close>
  when the call throws.
\<close>

definition setItem ::
    "(localStorage \<Rightarrow> js_string \<Rightarrow> js_string \<Rightarrow> bool) \<Rightarrow> js_string \<Rightarrow> js_string \<Rightarrow>
     localStorage \<Rightarrow> localStorage option" where
  "setItem accepts key v ls = (if accepts ls key v then Some (ls(key \<mapsto> v)) else None)"

definition STORAGE_KEY :: js_string where
  "STORAGE_KEY = utf16_of ''proscore-analyses''"

text \<open>
  \<^verbatim>\<open>JSON.parse\<close> and \<^verbatim>\<open>JSON.stringify\<close> are built into the language; the functions
  below take them as the arguments \<open>parse\<close> (\<open>None\<close> when it throws a syntax error)
  and \<open>stringify\<close>.
\<close>

definition stored_text :: "localStorage \<Rightarrow> js_string" where
  "stored_text ls = falsy_or (ls STORAGE_KEY) (utf16_of ''[]'')"

text \<open>
  Iterating a string (as the spread \<^verbatim>\<open>...s\<close> does) yields its code points: a high
  surrogate followed by a low surrogate is one element.
\<close>

fun code_points :: "js_string \<Rightarrow> js_string list" where
  "code_points (a # b # cs) =
     (if 0xD800 \<le> a \<and> a \<le> 0xDBFF \<and> 0xDC00 \<le> b \<and> b \<le> 0xDFFF
      then [a, b] # code_points cs
      else [a] # code_points (b # cs))"
| "code_points [a] = [[a]]"
| "code_points [] = []"

text \<open>
  \<^verbatim>\<open>[...existing.slice(0, 9)]\<close>: an array gives its first nine elements, a string the
  code points of its first nine code units, and any other value has no \<^verbatim>\<open>slice\<close>
  method, which is a type error (\<open>None\<close>).
\<close>

fun slice_spread :: "json \<Rightarrow> json list option" where
  "slice_spread (JArr xs) = Some (take 9 xs)"
| "slice_spread (JStr s) = Some (map JStr (code_points (take 9 s)))"
| "slice_spread _ = None"

text \<open>
  \<^verbatim>\<open>saveToLocalStorage(analysis)\<close>, returning the storage after the call. Each of the
  three statements of the \<^verbatim>\<open>try\<close> block can throw: \<^verbatim>\<open>JSON.parse\<close> (a syntax
  error), the \<^verbatim>\<open>slice\<close> call (a type error) and \<^verbatim>\<open>setItem\<close> (the quota). The
  exception is caught and logged, and the storage is as it was.
\<close>

definition saveToLocalStorage ::
    "(js_string \<Rightarrow> json option) \<Rightarrow> (json \<Rightarrow> js_string) \<Rightarrow>
     (localStorage \<Rightarrow> js_string \<Rightarrow> js_string \<Rightarrow> bool) \<Rightarrow> json \<Rightarrow> localStorage \<Rightarrow> localStorage" where
  "saveToLocalStorage parse stringify accepts analysis ls =
     (case parse (stored_text ls) of
        None \<Rightarrow> ls
      | Some existing \<Rightarrow>
          (case slice_spread existing of
             None \<Rightarrow> ls
           | Some items \<Rightarrow>
               (let updated = JArr (analysis # items)
                in case setItem accepts STORAGE_KEY (stringify updated) ls of
                     None \<Rightarrow> ls
                   | Some ls' \<Rightarrow> ls')))"

definition getFromLocalStorage :: "(js_string \<Rightarrow> json option) \<Rightarrow> localStorage \<Rightarrow> json" where
  "getFromLocalStorage parse ls =
     (case parse (stored_text ls) of
        None \<Rightarrow> JArr []
      | Some v \<Rightarrow> v)"

section \<open>Properties of the rate limiter\<close>

lemma checkRateLimit_fresh:
  assumes "map_of st key = None \<or> (\<exists>e. map_of st key = Some e \<and> now > resetTime e)"
  shows "checkRateLimit key now st =
     (\<lparr>allowed = True, rate_limit_result.resetTime = Some (now + 1000), remaining = Some 9\<rparr>,
      AList.update key \<lparr>count = 1, resetTime = now + 1000\<rparr> st)"
  using assms
  by (auto simp: checkRateLimit_def RATE_LIMIT_def RATE_LIMIT_WINDOW_def Let_def split: option.splits)

lemma checkRateLimit_incr:
  assumes "map_of st key = Some e" "count e < RATE_LIMIT" "\<not> now > resetTime e"
  shows "checkRateLimit key now st =
     (\<lparr>allowed = True, rate_limit_result.resetTime = Some (resetTime e),
       remaining = Some (RATE_LIMIT - (count e + 1))\<rparr>,
      AList.update key (e\<lparr>count := count e + 1\<rparr>) st)"
  using assms by (simp add: checkRateLimit_def Let_def)

lemma map_of_snd_checkRateLimit_other:
  "key' \<noteq> key \<Longrightarrow> map_of (snd (checkRateLimit key now st)) key' = map_of st key'"
  by (simp add: checkRateLimit_def Let_def update_conv' split: option.splits)

lemma checkRateLimit_reads_own:
  assumes "map_of st key = map_of st' key"
  shows "fst (checkRateLimit key now st) = fst (checkRateLimit key now st')"
    and "map_of (snd (checkRateLimit key now st)) key = map_of (snd (checkRateLimit key now st')) key"
  using assms by (simp_all add: checkRateLimit_def Let_def update_conv' split: option.splits)

lemma run_window:
  assumes "map_of st key = Some e" "\<forall>t\<in>set ts. t \<le> resetTime e"
    and "count e + int (length ts) \<le> RATE_LIMIT"
  shows "fst (run_calls (map (Pair key) ts) st) =
     map (\<lambda>j. \<lparr>allowed = True, rate_limit_result.resetTime = Some (resetTime e),
                remaining = Some (RATE_LIMIT - (count e + 1 + int j))\<rparr>) [0..<length ts]"
  using assms
proof (induction ts arbitrary: st e)
  case Nil
  then show ?case by simp
next
  case (Cons t ts)
  let ?e' = "e\<lparr>count := count e + 1\<rparr>"
  let ?st' = "AList.update key ?e' st"
  have c: "checkRateLimit key t st =
     (\<lparr>allowed = True, rate_limit_result.resetTime = Some (resetTime e),
       remaining = Some (RATE_LIMIT - (count e + 1))\<rparr>, ?st')"
    using Cons.prems by (intro checkRateLimit_incr) auto
  have m: "map_of ?st' key = Some ?e'" by (simp add: update_conv')
  have ih: "fst (run_calls (map (Pair key) ts) ?st') =
     map (\<lambda>j. \<lparr>allowed = True, rate_limit_result.resetTime = Some (resetTime ?e'),
                remaining = Some (RATE_LIMIT - (count ?e' + 1 + int j))\<rparr>) [0..<length ts]"
    using Cons.prems by (intro Cons.IH[OF m]) auto
  show ?case
    by (simp add: c ih split_beta upt_conv_Cons map_Suc_upt[symmetric] add.assoc del: upt_Suc)
qed


text \<open>
  Claim C1. An identity that has no entry, or whose entry has expired at the time \<open>t0\<close>
  of its first call, makes ten calls: the first at \<open>t0\<close> opens the window, and the nine
  others come at any times not after the reset time \<open>t0 + RATE_LIMIT_WINDOW\<close> stored
  by the first. All ten calls are allowed, the values of \<^verbatim>\<open>remaining\<close> are
  9, 8, ..., 0 in this order, and every result carries the reset time of the window.
\<close>

theorem ten_requests_in_one_window:
  assumes fresh: "map_of st key = None \<or> (\<exists>e. map_of st key = Some e \<and> t0 > resetTime e)"
    and len: "length ts = 9"
    and window: "\<forall>t\<in>set ts. t \<le> t0 + RATE_LIMIT_WINDOW"
  shows "let rs = fst (run_calls (map (Pair key) (t0 # ts)) st)
         in length rs = 10 \<and> (\<forall>r\<in>set rs. allowed r) \<and>
            map remaining rs = map Some [9, 8, 7, 6, 5, 4, 3, 2, 1, 0] \<and>
            (\<forall>r\<in>set rs. rate_limit_result.resetTime r = Some (t0 + RATE_LIMIT_WINDOW))"
proof -
  let ?e = "\<lparr>count = 1, resetTime = t0 + 1000\<rparr>"
  let ?st' = "AList.update key ?e st"
  let ?r0 = "\<lparr>allowed = True, rate_limit_result.resetTime = Some (t0 + 1000), remaining = Some 9\<rparr>"
  have c: "checkRateLimit key t0 st = (?r0, ?st')"
    using fresh by (rule checkRateLimit_fresh)
  have m: "map_of ?st' key = Some ?e" by (simp add: update_conv')
  have w: "\<forall>t\<in>set ts. t \<le> resetTime ?e"
    using window by (simp add: RATE_LIMIT_WINDOW_def)
  have b: "count ?e + int (length ts) \<le> RATE_LIMIT"
    using len by (simp add: RATE_LIMIT_def)
  have nine: "[0..<9] = [0, 1, 2, 3, 4, 5, 6, 7, 8::nat]"
    by (simp add: upt_rec)
  have rest: "fst (run_calls (map (Pair key) ts) ?st') =
     map (\<lambda>j. \<lparr>allowed = True, rate_limit_result.resetTime = Some (t0 + 1000),
                remaining = Some (8 - int j)\<rparr>) [0..<9]"
    using run_window[OF m w b] len by (simp add: RATE_LIMIT_def)
  have all: "fst (run_calls (map (Pair key) (t0 # ts)) st) =
     ?r0 # map (\<lambda>j. \<lparr>allowed = True, rate_limit_result.resetTime = Some (t0 + 1000),
                remaining = Some (8 - int j)\<rparr>) [0..<9]"
    by (simp add: c rest split_beta)
  show ?thesis
    unfolding all Let_def nine by (simp add: RATE_LIMIT_WINDOW_def)
qed

theorem ten_requests_in_one_window_witness:
  "let key = utf16_of ''1.2.3.4'';
       rs = fst (run_calls (map (Pair key) [0, 0, 0, 0, 0, 0, 0, 0, 0, 0]) [])
   in map_of ([] :: rateLimitStore) key = None \<and> length rs = 10 \<and>
      list_all allowed rs \<and>
      map remaining rs = map Some [9, 8, 7, 6, 5, 4, 3, 2, 1, 0] \<and>
      list_all (\<lambda>r. rate_limit_result.resetTime r = Some 1000) rs"
  using ten_requests_in_one_window [of "[]" "utf16_of ''1.2.3.4''" 0 "[0, 0, 0, 0, 0, 0, 0, 0, 0]"]
  by (simp add: Let_def list_all_iff RATE_LIMIT_WINDOW_def)

text \<open>
  The scenario of the specification: ten requests at time 0, an eleventh at 500 and a
  twelfth at 1100, from one identity.
\<close>

lemma scenario_twelve_requests:
  "map (\<lambda>r. (allowed r, remaining r, rate_limit_result.resetTime r))
     (fst (run_calls
        (map (Pair (utf16_of ''1.2.3.4'')) [0, 0, 0, 0, 0, 0, 0, 0, 0, 0, 500, 1100]) []))
   = [(True, Some 9, Some 1000), (True, Some 8, Some 1000), (True, Some 7, Some 1000),
      (True, Some 6, Some 1000), (True, Some 5, Some 1000), (True, Some 4, Some 1000),
      (True, Some 3, Some 1000), (True, Some 2, Some 1000), (True, Some 1, Some 1000),
      (True, Some 0, Some 1000), (False, Some 0, Some 1000), (True, Some 9, Some 2100)]"
  by (simp add: checkRateLimit_def RATE_LIMIT_def RATE_LIMIT_WINDOW_def)

text \<open>
  Claim C2. When the stored entry of an identity has \<open>count \<ge> RATE_LIMIT\<close> and its
  reset time has not passed, the call is denied with \<^verbatim>\<open>remaining = 0\<close> and the stored
  reset time, and the store after the call is the store before it.
\<close>

theorem denied_call_leaves_store:
  assumes "map_of st key = Some e" and "count e \<ge> RATE_LIMIT" and "\<not> now > resetTime e"
  shows "checkRateLimit key now st =
     (\<lparr>allowed = False, rate_limit_result.resetTime = Some (resetTime e), remaining = Some 0\<rparr>,
      st)"
  using assms by (simp add: checkRateLimit_def Let_def)

theorem denied_call_leaves_store_witness:
  "let key = utf16_of ''1.2.3.4'';
       st = [(utf16_of ''5.6.7.8'', \<lparr>count = 3, resetTime = 900\<rparr>),
             (key, \<lparr>count = 10, resetTime = 1000\<rparr>)]
   in map_of st key = Some \<lparr>count = 10, resetTime = 1000\<rparr> \<and>
      checkRateLimit key 500 st =
        (\<lparr>allowed = False, rate_limit_result.resetTime = Some 1000, remaining = Some 0\<rparr>, st)"
  using denied_call_leaves_store
    [of "[(utf16_of ''5.6.7.8'', \<lparr>count = 3, resetTime = 900\<rparr>),
          (utf16_of ''1.2.3.4'', \<lparr>count = 10, resetTime = 1000\<rparr>)]"
        "utf16_of ''1.2.3.4''" "\<lparr>count = 10, resetTime = 1000\<rparr>" 500]
  by (simp add: Let_def utf16_of_def RATE_LIMIT_def)

text \<open>
  Claim C3. When an identity has no entry, or its stored reset time is before \<open>now\<close>,
  the call stores the entry with \<open>count = 1\<close> and reset time \<open>now + 1000\<close> and returns
  \<^verbatim>\<open>allowed = true\<close> with \<^verbatim>\<open>remaining = 9\<close>, whatever the count of the expired entry was.
\<close>

theorem fresh_window_after_expiry:
  assumes "map_of st key = None \<or> (\<exists>e. map_of st key = Some e \<and> now > resetTime e)"
  shows "fst (checkRateLimit key now st) =
           \<lparr>allowed = True, rate_limit_result.resetTime = Some (now + RATE_LIMIT_WINDOW),
            remaining = Some (RATE_LIMIT - 1)\<rparr> \<and>
         map_of (snd (checkRateLimit key now st)) key =
           Some \<lparr>count = 1, resetTime = now + RATE_LIMIT_WINDOW\<rparr> \<and>
         RATE_LIMIT - 1 = 9 \<and> RATE_LIMIT_WINDOW = 1000"
  using checkRateLimit_fresh[OF assms]
  by (simp add: update_conv' RATE_LIMIT_def RATE_LIMIT_WINDOW_def)

theorem fresh_window_after_expiry_witness:
  "let key = utf16_of ''1.2.3.4'';
       st = [(key, \<lparr>count = 10, resetTime = 1000\<rparr>)]
   in map_of st key = Some \<lparr>count = 10, resetTime = 1000\<rparr> \<and> (1100 :: int) > 1000 \<and>
      fst (checkRateLimit key 1100 st) =
        \<lparr>allowed = True, rate_limit_result.resetTime = Some 2100, remaining = Some 9\<rparr> \<and>
      map_of (snd (checkRateLimit key 1100 st)) key = Some \<lparr>count = 1, resetTime = 2100\<rparr>"
  using fresh_window_after_expiry
    [of "[(utf16_of ''1.2.3.4'', \<lparr>count = 10, resetTime = 1000\<rparr>)]" "utf16_of ''1.2.3.4''" 1100]
  by (simp add: Let_def RATE_LIMIT_def RATE_LIMIT_WINDOW_def)

lemma results_for_Cons:
  "results_for key ((k, t) # cs) st =
     (if k = key then [fst (checkRateLimit k t st)] else []) @
     results_for key cs (snd (checkRateLimit k t st))"
  by (simp add: results_for_def split_beta)

lemma results_for_own_entry:
  assumes "map_of st key = map_of st' key"
  shows "results_for key cs st = fst (run_calls (filter (\<lambda>c. fst c = key) cs) st')"
  using assms
proof (induction cs arbitrary: st st')
  case Nil
  then show ?case by (simp add: results_for_def)
next
  case (Cons c cs)
  obtain k t where c: "c = (k, t)" by (cases c)
  show ?case
  proof (cases "k = key")
    case True
    have r: "fst (checkRateLimit key t st) = fst (checkRateLimit key t st')"
      and m: "map_of (snd (checkRateLimit key t st)) key = map_of (snd (checkRateLimit key t st')) key"
      using Cons.prems by (rule checkRateLimit_reads_own)+
    show ?thesis
      using Cons.IH[OF m] r by (simp add: c True results_for_Cons split_beta)
  next
    case False
    have "map_of (snd (checkRateLimit k t st)) key = map_of st' key"
      using False Cons.prems by (simp add: map_of_snd_checkRateLimit_other)
    from Cons.IH[OF this] show ?thesis
      using False by (simp add: c results_for_Cons)
  qed
qed

text \<open>
  Claim C4. A call for identity \<open>A\<close> leaves the entry of every other identity \<open>B\<close> as
  it was, and its result and the entry it stores depend on the store only through the
  entry of \<open>A\<close>. Hence in any interleaving \<open>cs\<close> of calls (every call with its own clock
  value) the calls of \<open>A\<close> receive the results they receive when the calls of the other
  identities are left out.
\<close>

theorem identities_do_not_interfere:
  "(A \<noteq> B \<longrightarrow> map_of (snd (checkRateLimit A now st)) B = map_of st B) \<and>
   (map_of st A = map_of st' A \<longrightarrow>
      fst (checkRateLimit A now st) = fst (checkRateLimit A now st') \<and>
      map_of (snd (checkRateLimit A now st)) A = map_of (snd (checkRateLimit A now st')) A) \<and>
   results_for A cs st = fst (run_calls (filter (\<lambda>c. fst c = A) cs) st)"
proof (intro conjI impI)
  assume "A \<noteq> B"
  then show "map_of (snd (checkRateLimit A now st)) B = map_of st B"
    by (simp add: map_of_snd_checkRateLimit_other)
next
  assume "map_of st A = map_of st' A"
  then show "fst (checkRateLimit A now st) = fst (checkRateLimit A now st')"
    by (rule checkRateLimit_reads_own)
next
  assume "map_of st A = map_of st' A"
  then show "map_of (snd (checkRateLimit A now st)) A = map_of (snd (checkRateLimit A now st')) A"
    by (rule checkRateLimit_reads_own)
next
  show "results_for A cs st = fst (run_calls (filter (\<lambda>c. fst c = A) cs) st)"
    by (rule results_for_own_entry) simp
qed

theorem identities_do_not_interfere_witness:
  "let A = utf16_of ''1.1.1.1''; B = utf16_of ''2.2.2.2'';
       cs = [(A, 0), (B, 5), (B, 6), (A, 7), (B, 2000), (A, 2001), (A, 2002)]
   in A \<noteq> B \<and>
      map_of (snd (checkRateLimit A 0 [(B, \<lparr>count = 4, resetTime = 50\<rparr>)])) B =
        Some \<lparr>count = 4, resetTime = 50\<rparr> \<and>
      results_for A cs [] = fst (run_calls [(A, 0), (A, 7), (A, 2001), (A, 2002)] []) \<and>
      map remaining (results_for A cs []) = [Some 9, Some 8, Some 9, Some 8] \<and>
      results_for B cs [] = fst (run_calls [(B, 5), (B, 6), (B, 2000)] []) \<and>
      map remaining (results_for B cs []) = [Some 9, Some 8, Some 9]"
  using identities_do_not_interfere
    [of "utf16_of ''1.1.1.1''" "utf16_of ''2.2.2.2''" 0 "[]" "[]"
        "[(utf16_of ''1.1.1.1'', 0), (utf16_of ''2.2.2.2'', 5), (utf16_of ''2.2.2.2'', 6),
          (utf16_of ''1.1.1.1'', 7), (utf16_of ''2.2.2.2'', 2000), (utf16_of ''1.1.1.1'', 2001),
          (utf16_of ''1.1.1.1'', 2002)]"]
    identities_do_not_interfere
    [of "utf16_of ''2.2.2.2''" "utf16_of ''1.1.1.1''" 0 "[]" "[]"
        "[(utf16_of ''1.1.1.1'', 0), (utf16_of ''2.2.2.2'', 5), (utf16_of ''2.2.2.2'', 6),
          (utf16_of ''1.1.1.1'', 7), (utf16_of ''2.2.2.2'', 2000), (utf16_of ''1.1.1.1'', 2001),
          (utf16_of ''1.1.1.1'', 2002)]"]
  by (simp add: Let_def utf16_of_def checkRateLimit_def RATE_LIMIT_def RATE_LIMIT_WINDOW_def)

lemma map_of_sweep_loop:
  "map_of (sweep_loop now es st) k =
     (if \<exists>e. (k, e) \<in> set es \<and> now > resetTime e then None else map_of st k)"
proof (induction es arbitrary: st)
  case Nil
  then show ?case by simp
next
  case (Cons p es)
  obtain key v where p: "p = (key, v)" by (cases p)
  show ?case
    by (auto simp: p Cons.IH delete_conv')
qed

lemma map_of_sweep:
  assumes "wf_store st"
  shows "map_of (sweep now st) k =
     (case map_of st k of
        None \<Rightarrow> None
      | Some e \<Rightarrow> if now > resetTime e then None else Some e)"
proof -
  have "(k, e) \<in> set st \<longleftrightarrow> map_of st k = Some e" for e
    using assms by (simp add: wf_store_def)
  then show ?thesis
    by (simp add: sweep_def map_of_sweep_loop split: option.splits)
qed

lemma wf_store_checkRateLimit:
  "wf_store st \<Longrightarrow> wf_store (snd (checkRateLimit key now st))"
  by (simp add: wf_store_def checkRateLimit_def Let_def distinct_update split: option.splits)

lemma wf_store_sweep_loop:
  "wf_store st \<Longrightarrow> wf_store (sweep_loop now es st)"
proof (induction es arbitrary: st)
  case Nil
  then show ?case by simp
next
  case (Cons p es)
  obtain key v where p: "p = (key, v)" by (cases p)
  have "wf_store (AList.delete key st)"
    using Cons.prems by (simp add: wf_store_def distinct_delete)
  then show ?case
    using Cons.prems by (simp add: p Cons.IH)
qed

lemma wf_store_run_calls:
  "wf_store st \<Longrightarrow> wf_store (snd (run_calls cs st))"
proof (induction cs arbitrary: st)
  case Nil
  then show ?case by simp
next
  case (Cons c cs)
  obtain k t where c: "c = (k, t)" by (cases c)
  show ?case
    using Cons.IH[OF wf_store_checkRateLimit[OF Cons.prems, of k t]]
    by (simp add: c split_beta)
qed

text \<open>
  Claim C6. In a store with unique keys (every store the limiter builds), after the
  sweep at time \<open>now\<close> an identity has an entry exactly when it had one before whose
  reset time satisfies \<open>now \<le> resetTime\<close>, and that entry is the one it had. The store
  keeps unique keys. For an identity whose entry was swept, a later call at any time
  \<open>t\<close> returns the result and stores the entry that it returns and stores for an
  identity that has no entry: the limit less one remaining, and a window ending at
  \<open>t + RATE_LIMIT_WINDOW\<close>.
\<close>

theorem sweep_removes_expired:
  assumes "wf_store st"
  shows "wf_store (sweep now st) \<and>
     (map_of (sweep now st) key \<noteq> None \<longleftrightarrow>
        (\<exists>e. map_of st key = Some e \<and> now \<le> resetTime e)) \<and>
     (map_of (sweep now st) key \<noteq> None \<longrightarrow> map_of (sweep now st) key = map_of st key) \<and>
     ((\<exists>e. map_of st key = Some e \<and> now > resetTime e) \<longrightarrow>
        fst (checkRateLimit key t (sweep now st)) =
          \<lparr>allowed = True, rate_limit_result.resetTime = Some (t + RATE_LIMIT_WINDOW),
           remaining = Some (RATE_LIMIT - 1)\<rparr> \<and>
        map_of (snd (checkRateLimit key t (sweep now st))) key =
          Some \<lparr>count = 1, resetTime = t + RATE_LIMIT_WINDOW\<rparr> \<and>
        (\<forall>st'. map_of st' key = None \<longrightarrow>
           fst (checkRateLimit key t (sweep now st)) = fst (checkRateLimit key t st') \<and>
           map_of (snd (checkRateLimit key t (sweep now st))) key =
             map_of (snd (checkRateLimit key t st')) key))"
proof (intro conjI impI allI)
  show "wf_store (sweep now st)"
    using assms by (simp add: sweep_def wf_store_sweep_loop)
next
  show "map_of (sweep now st) key \<noteq> None \<longleftrightarrow>
        (\<exists>e. map_of st key = Some e \<and> now \<le> resetTime e)"
    by (auto simp: map_of_sweep[OF assms] split: option.splits)
next
  assume "map_of (sweep now st) key \<noteq> None"
  then show "map_of (sweep now st) key = map_of st key"
    by (auto simp: map_of_sweep[OF assms] split: option.splits if_splits)
next
  assume "\<exists>e. map_of st key = Some e \<and> now > resetTime e"
  then have gone: "map_of (sweep now st) key = None"
    by (auto simp: map_of_sweep[OF assms])
  then have c: "checkRateLimit key t (sweep now st) =
     (\<lparr>allowed = True, rate_limit_result.resetTime = Some (t + 1000), remaining = Some 9\<rparr>,
      AList.update key \<lparr>count = 1, resetTime = t + 1000\<rparr> (sweep now st))"
    by (intro checkRateLimit_fresh) simp
  show "fst (checkRateLimit key t (sweep now st)) =
          \<lparr>allowed = True, rate_limit_result.resetTime = Some (t + RATE_LIMIT_WINDOW),
           remaining = Some (RATE_LIMIT - 1)\<rparr>"
    by (simp add: c RATE_LIMIT_def RATE_LIMIT_WINDOW_def)
  show "map_of (snd (checkRateLimit key t (sweep now st))) key =
          Some \<lparr>count = 1, resetTime = t + RATE_LIMIT_WINDOW\<rparr>"
    by (simp add: c update_conv' RATE_LIMIT_WINDOW_def)
  fix st' :: rateLimitStore
  assume "map_of st' key = None"
  then have same: "map_of (sweep now st) key = map_of st' key"
    using gone by simp
  show "fst (checkRateLimit key t (sweep now st)) = fst (checkRateLimit key t st')"
    using same by (rule checkRateLimit_reads_own)
  show "map_of (snd (checkRateLimit key t (sweep now st))) key =
             map_of (snd (checkRateLimit key t st')) key"
    using same by (rule checkRateLimit_reads_own)
qed

theorem sweep_removes_expired_witness:
  "let A = utf16_of ''1.1.1.1''; B = utf16_of ''2.2.2.2''; C = utf16_of ''3.3.3.3'';
       st = [(A, \<lparr>count = 10, resetTime = 1000\<rparr>), (B, \<lparr>count = 2, resetTime = 60000\<rparr>),
             (C, \<lparr>count = 1, resetTime = 59999\<rparr>)]
   in wf_store st \<and>
      sweep 60000 st = [(B, \<lparr>count = 2, resetTime = 60000\<rparr>)] \<and>
      map_of (sweep 60000 st) A = None \<and>
      map_of (sweep 60000 st) B = Some \<lparr>count = 2, resetTime = 60000\<rparr> \<and>
      fst (checkRateLimit A 60001 (sweep 60000 st)) =
        \<lparr>allowed = True, rate_limit_result.resetTime = Some 61001, remaining = Some 9\<rparr> \<and>
      fst (checkRateLimit A 60001 (sweep 60000 st)) = fst (checkRateLimit A 60001 [])"
  using sweep_removes_expired
    [of "[(utf16_of ''1.1.1.1'', \<lparr>count = 10, resetTime = 1000\<rparr>),
          (utf16_of ''2.2.2.2'', \<lparr>count = 2, resetTime = 60000\<rparr>),
          (utf16_of ''3.3.3.3'', \<lparr>count = 1, resetTime = 59999\<rparr>)]"
        60000 "utf16_of ''1.1.1.1''" 60001]
  by (simp add: Let_def utf16_of_def wf_store_def sweep_def AList.delete_eq checkRateLimit_def
        RATE_LIMIT_def RATE_LIMIT_WINDOW_def)

lemma set_update_subset:
  "set (AList.update k v al) \<subseteq> insert (k, v) (set al)"
  by (induction al) auto

lemma counts_checkRateLimit:
  assumes inv: "\<forall>p\<in>set st. 1 \<le> count (snd p) \<and> count (snd p) \<le> RATE_LIMIT"
  shows "\<forall>p\<in>set (snd (checkRateLimit key now st)). 1 \<le> count (snd p) \<and> count (snd p) \<le> RATE_LIMIT"
proof (cases "map_of st key")
  case None
  then have "checkRateLimit key now st =
     (\<lparr>allowed = True, rate_limit_result.resetTime = Some (now + 1000), remaining = Some 9\<rparr>,
      AList.update key \<lparr>count = 1, resetTime = now + 1000\<rparr> st)"
    by (intro checkRateLimit_fresh) simp
  then show ?thesis
    using inv set_update_subset[of key "\<lparr>count = 1, resetTime = now + 1000\<rparr>" st]
    by (auto simp: RATE_LIMIT_def)
next
  case (Some e)
  then have mem: "(key, e) \<in> set st" by (rule map_of_SomeD)
  consider (expired) "now > resetTime e"
    | (full) "\<not> now > resetTime e" "count e \<ge> RATE_LIMIT"
    | (incr) "\<not> now > resetTime e" "count e < RATE_LIMIT"
    by linarith
  then show ?thesis
  proof cases
    case expired
    then have "checkRateLimit key now st =
       (\<lparr>allowed = True, rate_limit_result.resetTime = Some (now + 1000), remaining = Some 9\<rparr>,
        AList.update key \<lparr>count = 1, resetTime = now + 1000\<rparr> st)"
      using Some by (intro checkRateLimit_fresh) simp
    then show ?thesis
      using inv set_update_subset[of key "\<lparr>count = 1, resetTime = now + 1000\<rparr>" st]
      by (auto simp: RATE_LIMIT_def)
  next
    case full
    then show ?thesis
      using inv Some by (simp add: checkRateLimit_def Let_def)
  next
    case incr
    have "1 \<le> count e" using inv mem by auto
    then show ?thesis
      using inv incr set_update_subset[of key "e\<lparr>count := count e + 1\<rparr>" st]
      by (auto simp: checkRateLimit_incr[OF Some incr(2) incr(1)])
  qed
qed

lemma counts_run_calls:
  assumes "\<forall>p\<in>set st. 1 \<le> count (snd p) \<and> count (snd p) \<le> RATE_LIMIT"
  shows "\<forall>p\<in>set (snd (run_calls cs st)). 1 \<le> count (snd p) \<and> count (snd p) \<le> RATE_LIMIT"
  using assms
proof (induction cs arbitrary: st)
  case Nil
  then show ?case by simp
next
  case (Cons c cs)
  obtain k t where c: "c = (k, t)" by (cases c)
  show ?case
    using Cons.IH[OF counts_checkRateLimit[OF Cons.prems, of k t]]
    by (simp add: c split_beta)
qed

lemma allowed_remaining:
  assumes inv: "\<forall>p\<in>set st. 1 \<le> count (snd p) \<and> count (snd p) \<le> RATE_LIMIT"
    and al: "allowed (fst (checkRateLimit key now st))"
  shows "\<exists>e. map_of (snd (checkRateLimit key now st)) key = Some e \<and>
             remaining (fst (checkRateLimit key now st)) = Some (RATE_LIMIT - count e) \<and>
             0 \<le> RATE_LIMIT - count e \<and> RATE_LIMIT - count e \<le> RATE_LIMIT - 1"
proof (cases "map_of st key")
  case None
  then show ?thesis
    by (simp add: checkRateLimit_def Let_def update_conv' RATE_LIMIT_def)
next
  case (Some e)
  then have "(key, e) \<in> set st" by (rule map_of_SomeD)
  then have "1 \<le> count e" using inv by auto
  then show ?thesis
    using al Some
    by (auto simp: checkRateLimit_def Let_def update_conv' RATE_LIMIT_def split: if_splits)
qed

text \<open>
  Claim C7. In every store reached from the empty map by a sequence \<open>cs\<close> of calls (at
  any clock values, non-decreasing or not), every stored entry has
  \<open>1 \<le> count \<le> RATE_LIMIT\<close>, and the store has unique keys. Every call made in such a
  store that is allowed returns \<open>remaining = RATE_LIMIT - count\<close> for the entry it has
  just stored, which lies between \<open>0\<close> and \<open>RATE_LIMIT - 1\<close>.
\<close>

theorem count_between_one_and_limit:
  "let st = snd (run_calls cs [])
   in wf_store st \<and>
      (\<forall>(k, e)\<in>set st. 1 \<le> count e \<and> count e \<le> RATE_LIMIT) \<and>
      (\<forall>key now. allowed (fst (checkRateLimit key now st)) \<longrightarrow>
         (\<exists>e. map_of (snd (checkRateLimit key now st)) key = Some e \<and>
              remaining (fst (checkRateLimit key now st)) = Some (RATE_LIMIT - count e) \<and>
              0 \<le> RATE_LIMIT - count e \<and> RATE_LIMIT - count e \<le> RATE_LIMIT - 1))"
proof -
  have w: "wf_store (snd (run_calls cs []))"
    by (rule wf_store_run_calls) (simp add: wf_store_def)
  have inv: "\<forall>p\<in>set (snd (run_calls cs [])). 1 \<le> count (snd p) \<and> count (snd p) \<le> RATE_LIMIT"
    by (rule counts_run_calls) simp
  show ?thesis
    unfolding Let_def using w inv allowed_remaining[OF inv] by (auto simp: split_beta)
qed

theorem count_between_one_and_limit_witness:
  "let A = utf16_of ''1.1.1.1''; B = utf16_of ''2.2.2.2'';
       cs = [(A, 0), (A, 1), (A, 2), (A, 3), (A, 4), (A, 5), (B, 6), (A, 7), (A, 8), (A, 9),
             (A, 10), (A, 11), (A, 12)];
       st = snd (run_calls cs [])
   in st = [(A, \<lparr>count = 10, resetTime = 1000\<rparr>), (B, \<lparr>count = 1, resetTime = 1006\<rparr>)] \<and>
      list_all (\<lambda>(k, e). 1 \<le> count e \<and> count e \<le> 10) st \<and>
      allowed (fst (checkRateLimit B 7 st)) \<and>
      remaining (fst (checkRateLimit B 7 st)) = Some 8 \<and>
      map_of (snd (checkRateLimit B 7 st)) B = Some \<lparr>count = 2, resetTime = 1006\<rparr> \<and>
      \<not> allowed (fst (checkRateLimit A 13 st))"
  using count_between_one_and_limit
    [of "[(utf16_of ''1.1.1.1'', 0), (utf16_of ''1.1.1.1'', 1), (utf16_of ''1.1.1.1'', 2),
          (utf16_of ''1.1.1.1'', 3), (utf16_of ''1.1.1.1'', 4), (utf16_of ''1.1.1.1'', 5),
          (utf16_of ''2.2.2.2'', 6), (utf16_of ''1.1.1.1'', 7), (utf16_of ''1.1.1.1'', 8),
          (utf16_of ''1.1.1.1'', 9), (utf16_of ''1.1.1.1'', 10), (utf16_of ''1.1.1.1'', 11),
          (utf16_of ''1.1.1.1'', 12)]"]
  by (simp add: Let_def utf16_of_def checkRateLimit_def RATE_LIMIT_def RATE_LIMIT_WINDOW_def)

section \<open>Properties of the identity resolution\<close>

lemma split_on_not_Nil: "split_on sep s \<noteq> []"
  by (induction s) (auto split: list.splits)

lemma hd_split_on: "hd (split_on sep s) = takeWhile (\<lambda>c. c \<noteq> sep) s"
proof (induction s)
  case Nil
  then show ?case by simp
next
  case (Cons c s)
  then show ?case
    using split_on_not_Nil[of sep s] by (auto split: list.splits)
qed

lemma first_forwarded_takeWhile:
  "first_forwarded v = trim (takeWhile (\<lambda>c. c \<noteq> 0x2C) v)"
  by (simp add: first_forwarded_def hd_split_on)

lemma trim_eq_Nil: "trim s = [] \<longleftrightarrow> (\<forall>c\<in>set s. is_space c)"
proof -
  have "(\<forall>x\<in>set (dropWhile is_space s). is_space x) \<longleftrightarrow> dropWhile is_space s = []"
    using hd_dropWhile[of is_space s] by (cases "dropWhile is_space s") (auto dest: set_dropWhileD)
  then show ?thesis
    by (simp add: trim_def dropWhile_eq_Nil_conv)
qed

lemma sentinel_not_empty: "utf16_of ''unknown-client'' \<noteq> []"
  by (simp add: utf16_of_def)

text \<open>
  Claim C5, as the code has it. The headers \<^verbatim>\<open>cf-connecting-ip\<close>, \<^verbatim>\<open>x-forwarded-for\<close>,
  \<^verbatim>\<open>x-real-ip\<close> and \<^verbatim>\<open>x-client-ip\<close> are examined in this order, and the first whose
  value is present and not empty decides: its value is returned, and for
  \<^verbatim>\<open>x-forwarded-for\<close> what is returned is the part before the first comma, trimmed. When
  no header has a value that is present and not empty, the result is
  \<^verbatim>\<open>"unknown-client"\<close>. The result is the empty string exactly when \<^verbatim>\<open>cf-connecting-ip\<close>
  is missing or empty and \<^verbatim>\<open>x-forwarded-for\<close> is not empty but has only white space
  before its first comma, whatever the later headers hold.
\<close>

theorem identity_by_header_priority:
  "getRateLimitKey hs = spec_identity hs \<and>
   (getRateLimitKey hs = [] \<longleftrightarrow>
      \<not> truthy (hs ''cf-connecting-ip'') \<and>
      (\<exists>v. hs ''x-forwarded-for'' = Some v \<and> v \<noteq> [] \<and>
           (\<forall>c\<in>set (takeWhile (\<lambda>c. c \<noteq> 0x2C) v). is_space c)))"
proof
  show "getRateLimitKey hs = spec_identity hs"
    by (simp add: getRateLimitKey_def spec_identity_def header_priority_def Let_def truthy_def
          nullish_or_def first_forwarded_takeWhile split: option.splits)
  show "getRateLimitKey hs = [] \<longleftrightarrow>
      \<not> truthy (hs ''cf-connecting-ip'') \<and>
      (\<exists>v. hs ''x-forwarded-for'' = Some v \<and> v \<noteq> [] \<and>
           (\<forall>c\<in>set (takeWhile (\<lambda>c. c \<noteq> 0x2C) v). is_space c))"
    using sentinel_not_empty
    by (auto simp: getRateLimitKey_def Let_def truthy_def nullish_or_def
          first_forwarded_takeWhile trim_eq_Nil split: option.splits)
qed

theorem identity_by_header_priority_witness:
  "getRateLimitKey (map_of [(''cf-connecting-ip'', utf16_of ''9.9.9.9''),
                            (''x-forwarded-for'', utf16_of ''1.1.1.1,2.2.2.2'')])
     = utf16_of ''9.9.9.9'' \<and>
   getRateLimitKey (map_of [(''x-forwarded-for'', utf16_of ''1.1.1.1, 2.2.2.2'')])
     = utf16_of ''1.1.1.1'' \<and>
   getRateLimitKey (map_of [(''cf-connecting-ip'', []), (''x-client-ip'', utf16_of ''7.7.7.7'')])
     = utf16_of ''7.7.7.7'' \<and>
   getRateLimitKey (map_of []) = utf16_of ''unknown-client'' \<and>
   getRateLimitKey (map_of [(''x-forwarded-for'', utf16_of '' , 2.2.2.2'')]) = [] \<and>
   is_space 0x20"
  using identity_by_header_priority
      [of "map_of [(''cf-connecting-ip'', utf16_of ''9.9.9.9''),
                   (''x-forwarded-for'', utf16_of ''1.1.1.1,2.2.2.2'')]"]
    identity_by_header_priority [of "map_of [(''x-forwarded-for'', utf16_of ''1.1.1.1, 2.2.2.2'')]"]
    identity_by_header_priority
      [of "map_of [(''cf-connecting-ip'', []), (''x-client-ip'', utf16_of ''7.7.7.7'')]"]
    identity_by_header_priority [of "map_of []"]
    identity_by_header_priority [of "map_of [(''x-forwarded-for'', utf16_of '' , 2.2.2.2'')]"]
  by (simp add: spec_identity_def header_priority_def utf16_of_def trim_def is_space_def)

text \<open>
  The last sentence of claim C5 as it was stated fails: with \<^verbatim>\<open>x-forwarded-for: ,1.1.1.1\<close>
  and \<^verbatim>\<open>x-real-ip: 5.5.5.5\<close> the resolved identity is the empty string, although a later
  header holds a value that is not empty.
\<close>

theorem empty_identity_counterexample:
  "getRateLimitKey (map_of [(''x-forwarded-for'', utf16_of '',1.1.1.1''),
                            (''x-real-ip'', utf16_of ''5.5.5.5'')]) = [] \<and>
   map_of [(''x-forwarded-for'', utf16_of '',1.1.1.1''), (''x-real-ip'', utf16_of ''5.5.5.5'')]
     ''x-real-ip'' = Some (utf16_of ''5.5.5.5'') \<and>
   utf16_of ''5.5.5.5'' \<noteq> []"
  by (simp add: getRateLimitKey_def Let_def truthy_def nullish_or_def first_forwarded_def
        trim_def utf16_of_def)

section \<open>Properties of the feedback lists\<close>

lemma length_parseTextToArray: "length (parseTextToArray text) \<le> 3"
  by (simp add: parseTextToArray_def)

lemma POST_feedback_lists:
  "strengths (POST_feedback s i r ov) =
     (if parseTextToArray (nullish_or s []) = []
      then [utf16_of ''Project shows potential in multiple areas'']
      else parseTextToArray (nullish_or s []))"
  "improvements (POST_feedback s i r ov) =
     (if parseTextToArray (nullish_or i []) = []
      then [utf16_of ''Consider refining areas with lower scores'']
      else parseTextToArray (nullish_or i []))"
  "recommendations (POST_feedback s i r ov) =
     (if parseTextToArray (nullish_or r []) = []
      then [utf16_of ''Focus on strengthening core value proposition'']
      else parseTextToArray (nullish_or r []))"
  by (simp_all add: POST_feedback_def Let_def)

text \<open>
  Claim C8. In the feedback of a response with status 200, whatever the upstream texts
  are (also when one is missing), each of the lists \<^verbatim>\<open>strengths\<close>, \<^verbatim>\<open>improvements\<close>
  and \<^verbatim>\<open>recommendations\<close> has at least one and at most three entries: it is the parsed
  list when that is not empty, and the one canned string of its kind when the parsed
  list is empty.
\<close>

theorem feedback_lists_one_to_three:
  "let fb = POST_feedback s i r ov
   in (1 \<le> length (strengths fb) \<and> length (strengths fb) \<le> 3) \<and>
      (1 \<le> length (improvements fb) \<and> length (improvements fb) \<le> 3) \<and>
      (1 \<le> length (recommendations fb) \<and> length (recommendations fb) \<le> 3) \<and>
      strengths fb =
        (if parseTextToArray (nullish_or s []) = []
         then [utf16_of ''Project shows potential in multiple areas'']
         else parseTextToArray (nullish_or s [])) \<and>
      improvements fb =
        (if parseTextToArray (nullish_or i []) = []
         then [utf16_of ''Consider refining areas with lower scores'']
         else parseTextToArray (nullish_or i [])) \<and>
      recommendations fb =
        (if parseTextToArray (nullish_or r []) = []
         then [utf16_of ''Focus on strengthening core value proposition'']
         else parseTextToArray (nullish_or r []))"
  unfolding Let_def POST_feedback_lists
  using length_parseTextToArray[of "nullish_or s []"]
    length_parseTextToArray[of "nullish_or i []"]
    length_parseTextToArray[of "nullish_or r []"]
  by (simp add: Suc_le_eq)

lemma parse_example:
  "parseTextToArray (utf16_of ''1. first\<newline>second\<newline>\<newline>  third \<newline>4 fourth\<newline>fifth\<newline>sixth'')
     = [utf16_of ''second'', utf16_of ''third'', utf16_of ''fifth'']"
  by (simp add: parseTextToArray_def utf16_of_def trim_def is_space_def is_digit_def
        matches_numbering_def)

theorem feedback_lists_one_to_three_witness:
  "strengths
     (POST_feedback
        (Some (utf16_of ''1. first\<newline>second\<newline>\<newline>  third \<newline>4 fourth\<newline>fifth\<newline>sixth''))
        None (Some (utf16_of ''1. only\<newline>2. numbered'')) None)
     = [utf16_of ''second'', utf16_of ''third'', utf16_of ''fifth''] \<and>
   improvements
     (POST_feedback
        (Some (utf16_of ''1. first\<newline>second\<newline>\<newline>  third \<newline>4 fourth\<newline>fifth\<newline>sixth''))
        None (Some (utf16_of ''1. only\<newline>2. numbered'')) None)
     = [utf16_of ''Consider refining areas with lower scores''] \<and>
   recommendations
     (POST_feedback
        (Some (utf16_of ''1. first\<newline>second\<newline>\<newline>  third \<newline>4 fourth\<newline>fifth\<newline>sixth''))
        None (Some (utf16_of ''1. only\<newline>2. numbered'')) None)
     = [utf16_of ''Focus on strengthening core value proposition'']"
proof -
  have p: "parseTextToArray (utf16_of ''1. only\<newline>2. numbered'') = []"
    by (simp add: parseTextToArray_def utf16_of_def trim_def is_space_def is_digit_def
          matches_numbering_def)
  have e: "parseTextToArray [] = []"
    by (simp add: parseTextToArray_def trim_def)
  show ?thesis
    using feedback_lists_one_to_three
      [of "Some (utf16_of ''1. first\<newline>second\<newline>\<newline>  third \<newline>4 fourth\<newline>fifth\<newline>sixth'')"
          None "Some (utf16_of ''1. only\<newline>2. numbered'')" None]
    by (simp add: Let_def nullish_or_def parse_example p e)
qed

section \<open>Properties of the stored history\<close>

lemma stored_text_after_set:
  "v \<noteq> [] \<Longrightarrow> stored_text (ls(STORAGE_KEY \<mapsto> v)) = v"
  by (simp add: stored_text_def falsy_or_def)

text \<open>
  Claim C9, as the code has it. The stored text (or \<^verbatim>\<open>"[]"\<close> when nothing is stored)
  parses to a list \<open>prior\<close>, and \<open>new\<close> is the new analysis followed by the first nine
  elements of \<open>prior\<close>: a list of \<open>1 + min 9 (length prior)\<close> elements, at most ten, with
  the new analysis at its head. When \<^verbatim>\<open>setItem\<close> accepts the write,
  \<^verbatim>\<open>saveToLocalStorage\<close> stores the text of \<open>new\<close> under the history key and changes no
  other key, and \<^verbatim>\<open>getFromLocalStorage\<close> returns \<open>new\<close> afterwards (when the text is not
  empty and parses back to \<open>new\<close>). When \<^verbatim>\<open>setItem\<close> throws, the storage is left as it
  was, and \<^verbatim>\<open>getFromLocalStorage\<close> still returns \<open>prior\<close>.
\<close>

theorem save_keeps_ten_most_recent:
  assumes "parse (stored_text ls) = Some (JArr prior)"
  shows "let new = analysis # take 9 prior;
             ls' = saveToLocalStorage parse stringify accepts analysis ls
         in hd new = analysis \<and> tl new = take 9 prior \<and>
            length new = 1 + min 9 (length prior) \<and> length new \<le> 10 \<and>
            (accepts ls STORAGE_KEY (stringify (JArr new)) \<longrightarrow>
               ls' = ls(STORAGE_KEY \<mapsto> stringify (JArr new)) \<and>
               (stringify (JArr new) \<noteq> [] \<and> parse (stringify (JArr new)) = Some (JArr new) \<longrightarrow>
                  getFromLocalStorage parse ls' = JArr new)) \<and>
            (\<not> accepts ls STORAGE_KEY (stringify (JArr new)) \<longrightarrow>
               ls' = ls \<and> getFromLocalStorage parse ls' = JArr prior)"
proof (cases "accepts ls STORAGE_KEY (stringify (JArr (analysis # take 9 prior)))")
  case True
  then have s: "saveToLocalStorage parse stringify accepts analysis ls =
           ls(STORAGE_KEY \<mapsto> stringify (JArr (analysis # take 9 prior)))"
    using assms by (simp add: saveToLocalStorage_def setItem_def)
  show ?thesis
    unfolding Let_def s
    using True by (simp add: getFromLocalStorage_def stored_text_after_set min.commute)
next
  case False
  then have s: "saveToLocalStorage parse stringify accepts analysis ls = ls"
    using assms by (simp add: saveToLocalStorage_def setItem_def)
  show ?thesis
    unfolding Let_def s
    using False assms by (simp add: getFromLocalStorage_def min.commute)
qed


theorem save_keeps_ten_most_recent_witness:
  "saveToLocalStorage
     (map_of [(utf16_of ''[1,2,3,4,5,6,7,8,9,10]'',
               JArr [JNum 1, JNum 2, JNum 3, JNum 4, JNum 5, JNum 6, JNum 7, JNum 8, JNum 9,
                     JNum 10]),
              (utf16_of ''[0,1,2,3,4,5,6,7,8,9]'',
               JArr [JNum 0, JNum 1, JNum 2, JNum 3, JNum 4, JNum 5, JNum 6, JNum 7, JNum 8,
                     JNum 9])])
     (\<lambda>v. if v = JArr [JNum 0, JNum 1, JNum 2, JNum 3, JNum 4, JNum 5, JNum 6, JNum 7,
                       JNum 8, JNum 9]
          then utf16_of ''[0,1,2,3,4,5,6,7,8,9]'' else utf16_of ''null'')
     (\<lambda>ls k v. length v \<le> 5000)
     (JNum 0)
     [STORAGE_KEY \<mapsto> utf16_of ''[1,2,3,4,5,6,7,8,9,10]'']
   = [STORAGE_KEY \<mapsto> utf16_of ''[0,1,2,3,4,5,6,7,8,9]''] \<and>
   getFromLocalStorage
     (map_of [(utf16_of ''[1,2,3,4,5,6,7,8,9,10]'',
               JArr [JNum 1, JNum 2, JNum 3, JNum 4, JNum 5, JNum 6, JNum 7, JNum 8, JNum 9,
                     JNum 10]),
              (utf16_of ''[0,1,2,3,4,5,6,7,8,9]'',
               JArr [JNum 0, JNum 1, JNum 2, JNum 3, JNum 4, JNum 5, JNum 6, JNum 7, JNum 8,
                     JNum 9])])
     (saveToLocalStorage
        (map_of [(utf16_of ''[1,2,3,4,5,6,7,8,9,10]'',
                  JArr [JNum 1, JNum 2, JNum 3, JNum 4, JNum 5, JNum 6, JNum 7, JNum 8, JNum 9,
                        JNum 10]),
                 (utf16_of ''[0,1,2,3,4,5,6,7,8,9]'',
                  JArr [JNum 0, JNum 1, JNum 2, JNum 3, JNum 4, JNum 5, JNum 6, JNum 7, JNum 8,
                        JNum 9])])
        (\<lambda>v. if v = JArr [JNum 0, JNum 1, JNum 2, JNum 3, JNum 4, JNum 5, JNum 6, JNum 7,
                          JNum 8, JNum 9]
             then utf16_of ''[0,1,2,3,4,5,6,7,8,9]'' else utf16_of ''null'')
        (\<lambda>ls k v. length v \<le> 5000)
        (JNum 0)
        [STORAGE_KEY \<mapsto> utf16_of ''[1,2,3,4,5,6,7,8,9,10]''])
   = JArr [JNum 0, JNum 1, JNum 2, JNum 3, JNum 4, JNum 5, JNum 6, JNum 7, JNum 8, JNum 9] \<and>
   length [JNum 0, JNum 1, JNum 2, JNum 3, JNum 4, JNum 5, JNum 6, JNum 7, JNum 8, JNum 9] = 10"
  using save_keeps_ten_most_recent
    [of "map_of [(utf16_of ''[1,2,3,4,5,6,7,8,9,10]'',
               JArr [JNum 1, JNum 2, JNum 3, JNum 4, JNum 5, JNum 6, JNum 7, JNum 8, JNum 9,
                     JNum 10]),
              (utf16_of ''[0,1,2,3,4,5,6,7,8,9]'',
               JArr [JNum 0, JNum 1, JNum 2, JNum 3, JNum 4, JNum 5, JNum 6, JNum 7, JNum 8,
                     JNum 9])]"
        "[STORAGE_KEY \<mapsto> utf16_of ''[1,2,3,4,5,6,7,8,9,10]'']"
        "[JNum 1, JNum 2, JNum 3, JNum 4, JNum 5, JNum 6, JNum 7, JNum 8, JNum 9, JNum 10]"
        "JNum 0"
        "\<lambda>v. if v = JArr [JNum 0, JNum 1, JNum 2, JNum 3, JNum 4, JNum 5, JNum 6, JNum 7,
                       JNum 8, JNum 9]
          then utf16_of ''[0,1,2,3,4,5,6,7,8,9]'' else utf16_of ''null''"
        "\<lambda>ls k v. length v \<le> 5000"]
  by (simp add: Let_def getFromLocalStorage_def stored_text_def falsy_or_def utf16_of_def)

text \<open>
  Claim C9 as it was stated fails when \<^verbatim>\<open>setItem\<close> throws. Nothing is stored yet, so
  the prior list is empty; the user agent accepts values of at most eight code units;
  the text of the new list, \<^verbatim>\<open>[1234567]\<close>, has nine. After the call there is still
  nothing stored under the history key.
\<close>

theorem save_refused_counterexample:
  "stored_text Map.empty = utf16_of ''[]'' \<and>
   map_of [(utf16_of ''[]'', JArr [])] (utf16_of ''[]'') = Some (JArr []) \<and>
   saveToLocalStorage
     (map_of [(utf16_of ''[]'', JArr [])])
     (\<lambda>v. if v = JArr [JNum 1234567] then utf16_of ''[1234567]'' else utf16_of ''null'')
     (\<lambda>ls k v. length v \<le> 8)
     (JNum 1234567)
     Map.empty
     STORAGE_KEY = None \<and>
   length (utf16_of ''[1234567]'') = 9"
  by (simp add: saveToLocalStorage_def setItem_def stored_text_def falsy_or_def utf16_of_def)

text \<open>
  Claim C10. When the string stored under the history key does not parse (and
  \<^verbatim>\<open>JSON.parse\<close> reads \<^verbatim>\<open>"[]"\<close> as the empty array), \<^verbatim>\<open>getFromLocalStorage\<close> returns the
  empty list: the function has an ordinary result, so the failure does not reach its
  caller.
\<close>

theorem malformed_history_is_empty:
  assumes "ls STORAGE_KEY = Some s" and "parse s = None"
    and "parse (utf16_of ''[]'') = Some (JArr [])"
  shows "getFromLocalStorage parse ls = JArr []"
  using assms by (simp add: getFromLocalStorage_def stored_text_def falsy_or_def)

theorem malformed_history_is_empty_witness:
  "[STORAGE_KEY \<mapsto> utf16_of ''[{id:''] STORAGE_KEY = Some (utf16_of ''[{id:'') \<and>
   (if utf16_of ''[{id:'' = utf16_of ''[]'' then Some (JArr []) else None) = None \<and>
   getFromLocalStorage (\<lambda>s. if s = utf16_of ''[]'' then Some (JArr []) else None)
     [STORAGE_KEY \<mapsto> utf16_of ''[{id:''] = JArr []"
  using malformed_history_is_empty
    [of "[STORAGE_KEY \<mapsto> utf16_of ''[{id:'']" "utf16_of ''[{id:''"
        "\<lambda>s. if s = utf16_of ''[]'' then Some (JArr []) else None"]
  by (simp add: utf16_of_def)

end
